theory Spec2Isabelle
  imports Main
begin

section \<open>Data model of \<^verbatim>\<open>models.py\<close>\<close>

text \<open>
  A grid position is a pair of Python integers, a colour an RGB triple. A \<^verbatim>\<open>Cube\<close>
  object has the four attributes \<^verbatim>\<open>pos\<close>, \<^verbatim>\<open>dirnx\<close>, \<^verbatim>\<open>dirny\<close> and \<^verbatim>\<open>color\<close>; the class
  attribute \<^verbatim>\<open>rows\<close> (20 in the source) is read through the instance in \<^verbatim>\<open>Snake.move\<close>
  and is a parameter of the functions below, so that statements about an N-by-N grid
  can be made for every N.
\<close>

type_synonym position = "int \<times> int"
type_synonym rgb = "int \<times> int \<times> int"
type_synonym turn_map = "position \<rightharpoonup> int \<times> int"

record cube =
  pos :: position
  dirnx :: int
  dirny :: int
  color :: rgb

definition Cube_rows :: int where
  "Cube_rows = 20"

text \<open>\<^verbatim>\<open>Cube.__init__(start, dirnx, dirny, color)\<close>.\<close>

definition Cube :: "position \<Rightarrow> int \<Rightarrow> int \<Rightarrow> rgb \<Rightarrow> cube" where
  "Cube start dx dy col = \<lparr>pos = start, dirnx = dx, dirny = dy, color = col\<rparr>"

text \<open>\<^verbatim>\<open>Cube(start)\<close>: the defaults \<^verbatim>\<open>dirnx=1, dirny=0, color=(255,0,0)\<close> of the signature.\<close>

definition Cube_default :: "position \<Rightarrow> cube" where
  "Cube_default start = Cube start 1 0 (255, 0, 0)"

text \<open>\<^verbatim>\<open>Cube.move(dirnx, dirny)\<close>: store the direction, then add it to the position.\<close>

definition Cube_move :: "cube \<Rightarrow> int \<Rightarrow> int \<Rightarrow> cube" where
  "Cube_move c dx dy =
     c\<lparr>dirnx := dx, dirny := dy, pos := (fst (pos c) + dx, snd (pos c) + dy)\<rparr>"

text \<open>
  A \<^verbatim>\<open>Snake\<close> object. In the source \<^verbatim>\<open>self.head\<close> and \<^verbatim>\<open>self.body[0]\<close> are the same
  object in every state the class produces (\<^verbatim>\<open>__init__\<close> and \<^verbatim>\<open>reset\<close> set
  \<^verbatim>\<open>self.body = [self.head]\<close>, \<^verbatim>\<open>add_cube\<close> only appends, \<^verbatim>\<open>move\<close> mutates the cubes in
  place). The record keeps that one object in \<open>head\<close> and the remaining list elements
  in \<open>rest\<close>; \<open>body\<close> is the Python list \<^verbatim>\<open>self.body\<close>. The pending turns are the
  dictionary \<^verbatim>\<open>self.turns\<close>, whose values \<^verbatim>\<open>[dirnx, dirny]\<close> are pairs here.
\<close>

record snake =
  snake_color :: rgb
  head :: cube
  rest :: "cube list"
  turns :: turn_map
  snake_dirnx :: int
  snake_dirny :: int

definition body :: "snake \<Rightarrow> cube list" where
  "body s = head s # rest s"

text \<open>\<^verbatim>\<open>Snake.__init__(color, pos)\<close>.\<close>

definition Snake :: "rgb \<Rightarrow> position \<Rightarrow> snake" where
  "Snake col p =
     \<lparr>snake_color = col, head = Cube_default p, rest = [], turns = Map.empty,
      snake_dirnx = 0, snake_dirny = 1\<rparr>"

section \<open>\<^verbatim>\<open>Snake.move\<close>\<close>

text \<open>
  One iteration of the loop body of \<^verbatim>\<open>Snake.move\<close> for the cube \<open>c\<close>; \<open>is_last\<close> is the
  test \<^verbatim>\<open>i == len(self.body) - 1\<close>. The result is the mutated cube and the dictionary.
\<close>

definition move_cube :: "int \<Rightarrow> bool \<Rightarrow> cube \<Rightarrow> turn_map \<Rightarrow> cube \<times> turn_map" where
  "move_cube rows is_last c T =
     (let p = pos c in
      case T p of
        Some turn \<Rightarrow>
          (Cube_move c (fst turn) (snd turn), if is_last then T(p := None) else T)
      | None \<Rightarrow>
          if dirnx c = - 1 \<and> fst (pos c) \<le> 0 then (c\<lparr>pos := (rows - 1, snd (pos c))\<rparr>, T)
          else if dirnx c = 1 \<and> fst (pos c) \<ge> rows - 1 then (c\<lparr>pos := (0, snd (pos c))\<rparr>, T)
          else if dirny c = 1 \<and> snd (pos c) \<ge> rows - 1 then (c\<lparr>pos := (fst (pos c), 0)\<rparr>, T)
          else if dirny c = - 1 \<and> snd (pos c) \<le> 0 then (c\<lparr>pos := (fst (pos c), rows - 1)\<rparr>, T)
          else (Cube_move c (dirnx c) (dirny c), T))"

text \<open>
  The loop \<^verbatim>\<open>for i, c in enumerate(self.body)\<close> from index \<open>i\<close> on; \<open>n\<close> is
  \<^verbatim>\<open>len(self.body)\<close>, which the loop does not change.
\<close>

fun move_loop :: "int \<Rightarrow> nat \<Rightarrow> nat \<Rightarrow> cube list \<Rightarrow> turn_map \<Rightarrow> cube list \<times> turn_map" where
  "move_loop rows n i [] T = ([], T)"
| "move_loop rows n i (c # cs) T =
     (let (c', T') = move_cube rows (int i = int n - 1) c T;
          (cs', T'') = move_loop rows n (Suc i) cs T'
      in (c' # cs', T''))"

definition move :: "int \<Rightarrow> snake \<Rightarrow> snake" where
  "move rows s =
     (let n = length (body s);
          (h, T1) = move_cube rows (int 0 = int n - 1) (head s) (turns s);
          (r, T2) = move_loop rows n 1 (rest s) T1
      in s\<lparr>head := h, rest := r, turns := T2\<rparr>)"

section \<open>\<^verbatim>\<open>Snake.handle_input\<close>, \<^verbatim>\<open>Snake.reset\<close>, \<^verbatim>\<open>Snake.add_cube\<close>\<close>

text \<open>
  The key state is indexed by the four key constants; a lookup \<^verbatim>\<open>keys[k]\<close> that raises
  \<^verbatim>\<open>KeyError\<close> or \<^verbatim>\<open>TypeError\<close> is \<open>None\<close>. The lookups happen in the conditions of the
  \<^verbatim>\<open>if/elif\<close> chain, before any assignment, so the \<^verbatim>\<open>except\<close> clause leaves the snake as
  it was.
\<close>

datatype key = K_LEFT | K_RIGHT | K_UP | K_DOWN

type_synonym key_state = "key \<Rightarrow> bool option"

text \<open>The three assignments of an accepted branch of \<^verbatim>\<open>handle_input\<close>.\<close>

definition accept_direction :: "int \<Rightarrow> int \<Rightarrow> snake \<Rightarrow> snake" where
  "accept_direction dx dy s =
     s\<lparr>snake_dirnx := dx, snake_dirny := dy, turns := (turns s)(pos (head s) \<mapsto> (dx, dy))\<rparr>"

definition handle_input :: "key_state \<Rightarrow> snake \<Rightarrow> snake" where
  "handle_input keys s =
     (case keys K_LEFT of None \<Rightarrow> s | Some left \<Rightarrow>
        if left \<and> snake_dirnx s \<noteq> 1 then accept_direction (- 1) 0 s
        else (case keys K_RIGHT of None \<Rightarrow> s | Some right \<Rightarrow>
          if right \<and> snake_dirnx s \<noteq> - 1 then accept_direction 1 0 s
          else (case keys K_UP of None \<Rightarrow> s | Some up \<Rightarrow>
            if up \<and> snake_dirny s \<noteq> 1 then accept_direction 0 (- 1) s
            else (case keys K_DOWN of None \<Rightarrow> s | Some down \<Rightarrow>
              if down \<and> snake_dirny s \<noteq> - 1 then accept_direction 0 1 s
              else s))))"


text \<open>
  \<^verbatim>\<open>add_cube\<close>: \<open>appended\<close> is what the \<^verbatim>\<open>if/elif\<close> chain (which has no \<^verbatim>\<open>else\<close>) appends
  to \<^verbatim>\<open>self.body\<close>; the last two statements then assign \<^verbatim>\<open>dx, dy\<close> to the direction of
  \<^verbatim>\<open>self.body[-1]\<close>, which is the head when the list has one element.
\<close>

definition add_cube :: "snake \<Rightarrow> snake" where
  "add_cube s =
     (let tail = last (body s);
          dx = dirnx tail;
          dy = dirny tail;
          appended =
            (if dx = 1 \<and> dy = 0 then [Cube_default (fst (pos tail) - 1, snd (pos tail))]
             else if dx = - 1 \<and> dy = 0 then [Cube_default (fst (pos tail) + 1, snd (pos tail))]
             else if dx = 0 \<and> dy = 1 then [Cube_default (fst (pos tail), snd (pos tail) - 1)]
             else if dx = 0 \<and> dy = - 1 then [Cube_default (fst (pos tail), snd (pos tail) + 1)]
             else []);
          r = rest s @ appended
      in if r = [] then s\<lparr>head := (head s)\<lparr>dirnx := dx, dirny := dy\<rparr>\<rparr>
         else s\<lparr>rest := butlast r @ [(last r)\<lparr>dirnx := dx, dirny := dy\<rparr>]\<rparr>)"

section \<open>The self-collision step of the game loop (\<^verbatim>\<open>game.py\<close>)\<close>




section \<open>\<^verbatim>\<open>random_snack\<close> (\<^verbatim>\<open>utils.py\<close>)\<close>

text \<open>
  The random source is the sequence \<open>rand\<close> of the values that the successive calls of
  \<^verbatim>\<open>secrets.randbelow(rows)\<close> return; \<open>k\<close> counts the calls made so far. By its contract
  \<^verbatim>\<open>randbelow(n)\<close> raises \<^verbatim>\<open>ValueError\<close> for \<open>n \<le> 0\<close> and returns a value in \<open>[0, n)\<close>
  otherwise. A loop that never ends is the value \<open>None\<close>.
\<close>

datatype snack_result = Snack position | ValueError

partial_function (option) snack_loop ::
  "int \<Rightarrow> cube list \<Rightarrow> (nat \<Rightarrow> int) \<Rightarrow> nat \<Rightarrow> snack_result option" where
  "snack_loop rows positions rand k =
     (if rows \<le> 0 then Some ValueError
      else if length (filter (\<lambda>cube. pos cube = (rand k, rand (k + 1))) positions) > 0
      then snack_loop rows positions rand (k + 2)
      else Some (Snack (rand k, rand (k + 1))))"

definition random_snack :: "int \<Rightarrow> snake \<Rightarrow> (nat \<Rightarrow> int) \<Rightarrow> snack_result option" where
  "random_snack rows s rand = snack_loop rows (body s) rand 0"

section \<open>Following the head\<close>

text \<open>
  \<open>advance\<close> is the loop body of \<^verbatim>\<open>Snake.move\<close> for a cube whose cell has no pending turn
  (the edge wraps and the plain step). \<open>reaches_after rows p n c\<close> says that the cube \<open>c\<close>,
  advancing on its own, is at the cell \<open>p\<close> after exactly \<open>n\<close> steps and not earlier;
  \<open>trails rows p i cs\<close> says that the cubes of \<open>cs\<close> reach \<open>p\<close> after \<open>i\<close>, \<open>i + 1\<close>, ...
  steps: each follows the one before it, one step behind.
\<close>

definition advance :: "int \<Rightarrow> cube \<Rightarrow> cube" where
  "advance rows c = fst (move_cube rows False c Map.empty)"

fun reaches_after :: "int \<Rightarrow> position \<Rightarrow> nat \<Rightarrow> cube \<Rightarrow> bool" where
  "reaches_after rows p 0 c = (pos c = p)"
| "reaches_after rows p (Suc n) c = (pos c \<noteq> p \<and> reaches_after rows p n (advance rows c))"

fun trails :: "int \<Rightarrow> position \<Rightarrow> nat \<Rightarrow> cube list \<Rightarrow> bool" where
  "trails rows p i [] = True"
| "trails rows p i (c # cs) = (reaches_after rows p i c \<and> trails rows p (Suc i) cs)"

text \<open>
  A straight body without gaps: the first cube is at \<open>p\<close>, each further cube one cell
  behind the one before it, opposite to the direction \<open>d\<close> that all of them store.
\<close>

fun straight_line :: "position \<Rightarrow> int \<times> int \<Rightarrow> cube list \<Rightarrow> bool" where
  "straight_line p d [] = True"
| "straight_line p d (c # cs) =
     (pos c = p \<and> dirnx c = fst d \<and> dirny c = snd d
      \<and> straight_line (fst p - fst d, snd p - snd d) d cs)"

section \<open>Properties\<close>

text \<open>
  C1. A fresh snake at (10,10) has the snake direction (0,1), but its head cube is built
  by \<^verbatim>\<open>Cube(pos)\<close> with the default cube direction (1,0), and \<^verbatim>\<open>Snake.move\<close> reads only
  the cube's direction: with no input handled, one move takes the head to (11,10),
  not to (10,11).
\<close>

theorem fresh_snake_first_move:
  "pos (head (move Cube_rows (Snake col (10, 10)))) = (11, 10)
   \<and> pos (head (move Cube_rows (Snake col (10, 10)))) \<noteq> (10, 11)
   \<and> (snake_dirnx (Snake col (10, 10)), snake_dirny (Snake col (10, 10))) = (0, 1)
   \<and> length (body (Snake col (10, 10))) = 1"
  by (simp add: move_def move_cube_def Snake_def Cube_default_def Cube_def Cube_move_def
      Cube_rows_def body_def)

subsection \<open>Input handling\<close>

text \<open>
  C5. Head-direction reversal is never accepted: when the snake direction is one of
  (1,0), (-1,0), (0,1), (0,-1) and the key state has exactly the key of the reverse
  direction pressed (LEFT, RIGHT, UP, DOWN respectively) and no other,
  \<^verbatim>\<open>handle_input\<close> leaves the snake's direction and its pending-turns map (indeed the
  whole snake) unchanged.
\<close>

theorem handle_input_rejects_reversal:
  assumes "(snake_dirnx s, snake_dirny s, pressed) \<in>
             {(1, 0, K_LEFT), (- 1, 0, K_RIGHT), (0, 1, K_UP), (0, - 1, K_DOWN)}"
      and "\<forall>k. keys k = Some (k = pressed)"
  shows "snake_dirnx (handle_input keys s) = snake_dirnx s
         \<and> snake_dirny (handle_input keys s) = snake_dirny s
         \<and> turns (handle_input keys s) = turns s
         \<and> handle_input keys s = s"
proof -
  have "handle_input keys s = s"
    using assms by (auto simp add: handle_input_def)
  then show ?thesis by simp
qed

theorem handle_input_rejects_reversal_witness:
  "(snake_dirnx (Snake (255, 0, 0) (10, 10)), snake_dirny (Snake (255, 0, 0) (10, 10)), K_UP) \<in>
      {(1, 0, K_LEFT), (- 1, 0, K_RIGHT), (0, 1, K_UP), (0, - 1, K_DOWN)}
   \<and> (\<forall>k. (\<lambda>k. Some (k = K_UP)) k = Some (k = K_UP))
   \<and> handle_input (\<lambda>k. Some (k = K_UP)) (Snake (255, 0, 0) (10, 10)) = Snake (255, 0, 0) (10, 10)"
proof -
  have h: "(snake_dirnx (Snake (255, 0, 0) (10, 10)), snake_dirny (Snake (255, 0, 0) (10, 10)), K_UP) \<in>
      {(1, 0, K_LEFT), (- 1, 0, K_RIGHT), (0, 1, K_UP), (0, - 1, K_DOWN)}"
    by (simp add: Snake_def)
  have k: "\<forall>k. (\<lambda>k. Some (k = K_UP)) k = Some (k = K_UP)" by simp
  from handle_input_rejects_reversal [OF h k] h k show ?thesis by blast
qed

subsection \<open>Growth\<close>

lemma add_cube_append:
  assumes "(dirnx (last (body s)), dirny (last (body s))) \<in> {(1, 0), (- 1, 0), (0, 1), (0, - 1)}"
  shows "body (add_cube s) =
           body s @ [Cube (fst (pos (last (body s))) - dirnx (last (body s)),
                           snd (pos (last (body s))) - dirny (last (body s)))
                          (dirnx (last (body s))) (dirny (last (body s))) (255, 0, 0)]"
proof -
  let ?t = "last (body s)"
  from assms consider "dirnx ?t = 1 \<and> dirny ?t = 0" | "dirnx ?t = - 1 \<and> dirny ?t = 0"
    | "dirnx ?t = 0 \<and> dirny ?t = 1" | "dirnx ?t = 0 \<and> dirny ?t = - 1"
    by auto
  then show ?thesis
  proof cases
    case 1 then show ?thesis
      by (simp add: add_cube_def Let_def body_def Cube_default_def Cube_def butlast_append)
  next
    case 2 then show ?thesis
      by (simp add: add_cube_def Let_def body_def Cube_default_def Cube_def butlast_append)
  next
    case 3 then show ?thesis
      by (simp add: add_cube_def Let_def body_def Cube_default_def Cube_def butlast_append)
  next
    case 4 then show ?thesis
      by (simp add: add_cube_def Let_def body_def Cube_default_def Cube_def butlast_append)
  qed
qed

lemma add_cube_same:
  assumes "(dirnx (last (body s)), dirny (last (body s))) \<notin> {(1, 0), (- 1, 0), (0, 1), (0, - 1)}"
  shows "add_cube s = s"
proof (cases "rest s = []")
  case True
  with assms show ?thesis by (simp add: add_cube_def Let_def body_def)
next
  case False
  then have "butlast (rest s) @ [last (rest s)] = rest s" by simp
  with assms False show ?thesis by (simp add: add_cube_def Let_def body_def)
qed

text \<open>
  C6, as stated for every snake, fails: a snake whose only cube has the direction (0,0)
  (the head after \<^verbatim>\<open>Cube.move(0, 0)\<close>) keeps its length 1 under \<^verbatim>\<open>add_cube\<close>.
\<close>

theorem add_cube_zero_direction_counterexample:
  "length (body (add_cube ((Snake (255, 0, 0) (10, 10))
      \<lparr>head := Cube_move (head (Snake (255, 0, 0) (10, 10))) 0 0\<rparr>)))
   \<noteq> length (body ((Snake (255, 0, 0) (10, 10))
      \<lparr>head := Cube_move (head (Snake (255, 0, 0) (10, 10))) 0 0\<rparr>)) + 1"
  by (simp add: add_cube_def Let_def body_def Snake_def Cube_default_def Cube_def Cube_move_def)

text \<open>
  C6, amended. For every snake whose tail's stored direction is one of the four
  axis-unit vectors (1,0), (-1,0), (0,1), (0,-1): after one call of \<^verbatim>\<open>add_cube\<close> the body
  length has increased by exactly 1, the new tail's stored direction equals the old
  tail's stored direction, the new tail's position is the old tail's position offset
  by one cell opposite to that direction, and the earlier segments are unchanged.
\<close>

theorem add_cube_axis_unit:
  assumes "(dirnx (last (body s)), dirny (last (body s))) \<in> {(1, 0), (- 1, 0), (0, 1), (0, - 1)}"
  shows "length (body (add_cube s)) = length (body s) + 1
         \<and> dirnx (last (body (add_cube s))) = dirnx (last (body s))
         \<and> dirny (last (body (add_cube s))) = dirny (last (body s))
         \<and> pos (last (body (add_cube s))) =
             (fst (pos (last (body s))) - dirnx (last (body s)),
              snd (pos (last (body s))) - dirny (last (body s)))
         \<and> butlast (body (add_cube s)) = body s"
  by (simp add: add_cube_append [OF assms] Cube_def)

theorem add_cube_axis_unit_witness:
  "(dirnx (last (body (Snake (255, 0, 0) (10, 10)))),
    dirny (last (body (Snake (255, 0, 0) (10, 10))))) \<in> {(1, 0), (- 1, 0), (0, 1), (0, - 1)}
   \<and> length (body (add_cube (Snake (255, 0, 0) (10, 10)))) = 2
   \<and> pos (last (body (add_cube (Snake (255, 0, 0) (10, 10))))) = (9, 10)
   \<and> dirnx (last (body (add_cube (Snake (255, 0, 0) (10, 10))))) = 1
   \<and> dirny (last (body (add_cube (Snake (255, 0, 0) (10, 10))))) = 0"
proof -
  have h: "(dirnx (last (body (Snake (255, 0, 0) (10, 10)))),
    dirny (last (body (Snake (255, 0, 0) (10, 10))))) \<in> {(1, 0), (- 1, 0), (0, 1), (0, - 1)}"
    by (simp add: body_def Snake_def Cube_default_def Cube_def)
  have b: "length (body (Snake (255, 0, 0) (10, 10))) = 1
    \<and> pos (last (body (Snake (255, 0, 0) (10, 10)))) = (10, 10)
    \<and> dirnx (last (body (Snake (255, 0, 0) (10, 10)))) = 1
    \<and> dirny (last (body (Snake (255, 0, 0) (10, 10)))) = 0"
    by (simp add: body_def Snake_def Cube_default_def Cube_def)
  from add_cube_axis_unit [OF h] h b show ?thesis by simp
qed

text \<open>
  C10. If the tail's stored direction is not one of the four axis-unit vectors, then
  \<^verbatim>\<open>add_cube\<close> appends no segment: the body length is unchanged, the old tail remains
  the last element, and the assignment of its direction fields changes nothing, so the
  snake is as before.
\<close>

theorem add_cube_no_append:
  assumes "(dirnx (last (body s)), dirny (last (body s))) \<notin> {(1, 0), (- 1, 0), (0, 1), (0, - 1)}"
  shows "length (body (add_cube s)) = length (body s)
         \<and> last (body (add_cube s)) = last (body s)
         \<and> add_cube s = s"
  by (simp add: add_cube_same [OF assms])

theorem add_cube_no_append_witness:
  "(dirnx (last (body ((Snake (255, 0, 0) (10, 10))\<lparr>head := Cube (10, 10) 0 0 (255, 0, 0)\<rparr>))),
    dirny (last (body ((Snake (255, 0, 0) (10, 10))\<lparr>head := Cube (10, 10) 0 0 (255, 0, 0)\<rparr>))))
     \<notin> {(1, 0), (- 1, 0), (0, 1), (0, - 1)}
   \<and> add_cube ((Snake (255, 0, 0) (10, 10))\<lparr>head := Cube (10, 10) 0 0 (255, 0, 0)\<rparr>)
     = (Snake (255, 0, 0) (10, 10))\<lparr>head := Cube (10, 10) 0 0 (255, 0, 0)\<rparr>"
proof -
  have h: "(dirnx (last (body ((Snake (255, 0, 0) (10, 10))\<lparr>head := Cube (10, 10) 0 0 (255, 0, 0)\<rparr>))),
    dirny (last (body ((Snake (255, 0, 0) (10, 10))\<lparr>head := Cube (10, 10) 0 0 (255, 0, 0)\<rparr>))))
     \<notin> {(1, 0), (- 1, 0), (0, 1), (0, - 1)}"
    by (simp add: body_def Snake_def Cube_def)
  from add_cube_no_append [OF h] h show ?thesis by blast
qed

subsection \<open>Movement\<close>

text \<open>
  The loop of \<^verbatim>\<open>Snake.move\<close> treats each cube on its own: the dictionary changes only at
  the last index, after every other cube has been moved.
\<close>

lemma move_cube_not_last: "snd (move_cube rows False c T) = T"
  by (simp add: move_cube_def Let_def split: option.splits)

lemma move_cube_fst: "fst (move_cube rows b c T) = fst (move_cube rows False c T)"
  by (simp add: move_cube_def Let_def split: option.splits)

lemma move_loop_length: "length (fst (move_loop rows n i cs T)) = length cs"
  by (induction cs arbitrary: i T) (simp_all add: split_beta Let_def)

lemma move_loop_nth:
  "i + length cs = n \<Longrightarrow> j < length cs \<Longrightarrow>
   fst (move_loop rows n i cs T) ! j = fst (move_cube rows False (cs ! j) T)"
proof (induction cs arbitrary: i j T)
  case Nil
  then show ?case by simp
next
  case (Cons c cs)
  show ?case
  proof (cases j)
    case 0
    then show ?thesis
      using move_cube_fst [of rows "int i = int n - 1" c T]
      by (simp add: split_beta Let_def)
  next
    case (Suc j')
    with Cons.prems have "cs \<noteq> []" and "j' < length cs" by auto
    with Cons.prems have nl: "\<not> (int i = int n - 1)" by (cases cs) auto
    have "Suc i + length cs = n" using Cons.prems by simp
    from Cons.IH [OF this \<open>j' < length cs\<close>] show ?thesis
      using Suc nl by (simp add: split_beta Let_def move_cube_not_last)
  qed
qed

lemma move_loop_turns:
  "i + length cs = n \<Longrightarrow>
   snd (move_loop rows n i cs T) = (if cs = [] then T else snd (move_cube rows True (last cs) T))"
proof (induction cs arbitrary: i T)
  case Nil
  then show ?case by simp
next
  case (Cons c cs)
  show ?case
  proof (cases "cs = []")
    case True
    with Cons.prems have "int i = int n - 1" by simp
    with True show ?thesis by (simp add: split_beta Let_def)
  next
    case False
    with Cons.prems have nl: "\<not> (int i = int n - 1)" by (cases cs) auto
    have "Suc i + length cs = n" using Cons.prems by simp
    from Cons.IH [OF this] show ?thesis
      using False nl by (simp add: split_beta Let_def move_cube_not_last)
  qed
qed

lemma body_move:
  "body (move rows s) = fst (move_loop rows (length (body s)) 0 (body s) (turns s))"
  by (simp add: move_def body_def split_beta Let_def)

lemma turns_move:
  "turns (move rows s) = snd (move_loop rows (length (body s)) 0 (body s) (turns s))"
  by (simp add: move_def body_def split_beta Let_def)

lemma body_move_nth:
  "i < length (body s) \<Longrightarrow>
   body (move rows s) ! i = fst (move_cube rows False (body s ! i) (turns s))"
  by (simp add: body_move move_loop_nth)

lemma turns_move_last:
  "turns (move rows s) = snd (move_cube rows True (last (body s)) (turns s))"
  using move_loop_turns [of 0 "body s" "length (body s)" rows "turns s"]
  by (simp add: turns_move body_def)

text \<open>
  C2. The positions are not kept inside the grid by every move. On the 20-by-20 grid a
  fresh snake at the in-grid position (19,10), after \<^verbatim>\<open>handle_input\<close> with only the RIGHT
  key pressed (accepted, since the snake direction is (0,1)), has a pending turn (1,0)
  at the head's cell; the pending-turn branch of \<^verbatim>\<open>Snake.move\<close> then calls \<^verbatim>\<open>Cube.move\<close>
  without the edge test of the other branches, and the head is at (20,10).
\<close>

theorem turn_at_edge_leaves_grid:
  "0 \<le> (19::int) \<and> 19 < Cube_rows \<and> 0 \<le> (10::int) \<and> 10 < Cube_rows
   \<and> pos (head (move Cube_rows (handle_input (\<lambda>k. Some (k = K_RIGHT)) (Snake col (19, 10)))))
       = (20, 10)
   \<and> \<not> fst (pos (head (move Cube_rows
          (handle_input (\<lambda>k. Some (k = K_RIGHT)) (Snake col (19, 10)))))) < Cube_rows"
  by (simp add: move_def move_cube_def handle_input_def accept_direction_def Snake_def
      Cube_default_def Cube_def Cube_move_def Cube_rows_def body_def)

text \<open>
  The four wrap branches in the order of the \<^verbatim>\<open>elif\<close> chain: the tests of the x edges
  come before those of the y edges.
\<close>

lemma move_wraps_in_chain_order:
  assumes "i < length (body s)"
      and "c = body s ! i"
      and "turns s (pos c) = None"
  shows "(dirnx c = - 1 \<and> fst (pos c) \<le> 0 \<longrightarrow>
            body (move rows s) ! i = c\<lparr>pos := (rows - 1, snd (pos c))\<rparr>)
       \<and> (dirnx c = 1 \<and> fst (pos c) \<ge> rows - 1 \<longrightarrow>
            body (move rows s) ! i = c\<lparr>pos := (0, snd (pos c))\<rparr>)
       \<and> (\<not> (dirnx c = - 1 \<and> fst (pos c) \<le> 0) \<and> \<not> (dirnx c = 1 \<and> fst (pos c) \<ge> rows - 1)
            \<and> dirny c = 1 \<and> snd (pos c) \<ge> rows - 1 \<longrightarrow>
            body (move rows s) ! i = c\<lparr>pos := (fst (pos c), 0)\<rparr>)
       \<and> (\<not> (dirnx c = - 1 \<and> fst (pos c) \<le> 0) \<and> \<not> (dirnx c = 1 \<and> fst (pos c) \<ge> rows - 1)
            \<and> dirny c = - 1 \<and> snd (pos c) \<le> 0 \<longrightarrow>
            body (move rows s) ! i = c\<lparr>pos := (fst (pos c), rows - 1)\<rparr>)"
proof -
  have "body (move rows s) ! i = fst (move_cube rows False c (turns s))"
    using assms(1,2) by (simp add: body_move_nth)
  then show ?thesis
    using assms(3) by (auto simp add: move_cube_def Let_def)
qed

text \<open>
  C4. For every segment of the body whose position is not a key of the pending-turns
  map (a segment's direction having at most one non-zero component, as in the data
  model and in every cube that the snake's operations make), \<^verbatim>\<open>Snake.move\<close> wraps it at
  the grid edges: with \<open>dirnx = -1\<close> at \<open>x \<le> 0\<close> it is set to \<open>x = N - 1\<close>, with
  \<open>dirnx = 1\<close> at \<open>x \<ge> N - 1\<close> to \<open>x = 0\<close>, with \<open>dirny = 1\<close> at \<open>y \<ge> N - 1\<close> to \<open>y = 0\<close>, and
  with \<open>dirny = -1\<close> at \<open>y \<le> 0\<close> to \<open>y = N - 1\<close>; in each of the four cases the other
  coordinate, the stored direction and the colour are left unchanged.
\<close>

theorem move_wraps_at_edges:
  assumes "i < length (body s)"
      and "c = body s ! i"
      and "turns s (pos c) = None"
      and "dirnx c = 0 \<or> dirny c = 0"
  shows "(dirnx c = - 1 \<and> fst (pos c) \<le> 0 \<longrightarrow>
            body (move rows s) ! i = c\<lparr>pos := (rows - 1, snd (pos c))\<rparr>)
       \<and> (dirnx c = 1 \<and> fst (pos c) \<ge> rows - 1 \<longrightarrow>
            body (move rows s) ! i = c\<lparr>pos := (0, snd (pos c))\<rparr>)
       \<and> (dirny c = 1 \<and> snd (pos c) \<ge> rows - 1 \<longrightarrow>
            body (move rows s) ! i = c\<lparr>pos := (fst (pos c), 0)\<rparr>)
       \<and> (dirny c = - 1 \<and> snd (pos c) \<le> 0 \<longrightarrow>
            body (move rows s) ! i = c\<lparr>pos := (fst (pos c), rows - 1)\<rparr>)"
proof -
  have "body (move rows s) ! i = fst (move_cube rows False c (turns s))"
    using assms(1,2) by (simp add: body_move_nth)
  then show ?thesis
    using assms(3,4) by (auto simp add: move_cube_def Let_def)
qed

theorem move_wraps_at_edges_witness:
  "body (move 20 ((Snake (255, 0, 0) (0, 10))\<lparr>head := Cube (0, 10) (- 1) 0 (255, 0, 0)\<rparr>)) ! 0
     = Cube (19, 10) (- 1) 0 (255, 0, 0)
   \<and> body (move 20 (Snake (255, 0, 0) (19, 10))) ! 0 = Cube (0, 10) 1 0 (255, 0, 0)
   \<and> body (move 20 ((Snake (255, 0, 0) (10, 19))\<lparr>head := Cube (10, 19) 0 1 (255, 0, 0)\<rparr>)) ! 0
     = Cube (10, 0) 0 1 (255, 0, 0)
   \<and> body (move 20 ((Snake (255, 0, 0) (10, 0))\<lparr>head := Cube (10, 0) 0 (- 1) (255, 0, 0)\<rparr>)) ! 0
     = Cube (10, 19) 0 (- 1) (255, 0, 0)"
proof -
  let ?l = "(Snake (255, 0, 0) (0, 10))\<lparr>head := Cube (0, 10) (- 1) 0 (255, 0, 0)\<rparr>"
  let ?r = "Snake (255, 0, 0) (19, 10)"
  let ?d = "(Snake (255, 0, 0) (10, 19))\<lparr>head := Cube (10, 19) 0 1 (255, 0, 0)\<rparr>"
  let ?u = "(Snake (255, 0, 0) (10, 0))\<lparr>head := Cube (10, 0) 0 (- 1) (255, 0, 0)\<rparr>"
  have l: "0 < length (body ?l)" "Cube (0, 10) (- 1) 0 (255, 0, 0) = body ?l ! 0"
    "turns ?l (pos (Cube (0, 10) (- 1) 0 (255, 0, 0))) = None"
    "dirnx (Cube (0, 10) (- 1) 0 (255, 0, 0)) = 0 \<or> dirny (Cube (0, 10) (- 1) 0 (255, 0, 0)) = 0"
    by (simp_all add: body_def Snake_def Cube_def)
  have r: "0 < length (body ?r)" "Cube (19, 10) 1 0 (255, 0, 0) = body ?r ! 0"
    "turns ?r (pos (Cube (19, 10) 1 0 (255, 0, 0))) = None"
    "dirnx (Cube (19, 10) 1 0 (255, 0, 0)) = 0 \<or> dirny (Cube (19, 10) 1 0 (255, 0, 0)) = 0"
    by (simp_all add: body_def Snake_def Cube_default_def Cube_def)
  have d: "0 < length (body ?d)" "Cube (10, 19) 0 1 (255, 0, 0) = body ?d ! 0"
    "turns ?d (pos (Cube (10, 19) 0 1 (255, 0, 0))) = None"
    "dirnx (Cube (10, 19) 0 1 (255, 0, 0)) = 0 \<or> dirny (Cube (10, 19) 0 1 (255, 0, 0)) = 0"
    by (simp_all add: body_def Snake_def Cube_def)
  have u: "0 < length (body ?u)" "Cube (10, 0) 0 (- 1) (255, 0, 0) = body ?u ! 0"
    "turns ?u (pos (Cube (10, 0) 0 (- 1) (255, 0, 0))) = None"
    "dirnx (Cube (10, 0) 0 (- 1) (255, 0, 0)) = 0 \<or> dirny (Cube (10, 0) 0 (- 1) (255, 0, 0)) = 0"
    by (simp_all add: body_def Snake_def Cube_def)
  show ?thesis
    using move_wraps_at_edges [OF l, of 20] move_wraps_at_edges [OF r, of 20]
      move_wraps_at_edges [OF d, of 20] move_wraps_at_edges [OF u, of 20]
    by (simp add: Cube_def)
qed

subsection \<open>Self-collision\<close>









subsection \<open>Snack placement\<close>

text \<open>
  What the loop returns is a pair of consecutive draws that no cube of the body
  occupies; it returns as soon as such a pair is drawn, and not before.
\<close>

lemma snack_loop_sound_aux:
  assumes "snack_loop rows b rand k = Some r"
  shows "0 < rows \<longrightarrow>
   (\<exists>j. r = Snack (rand (k + 2 * j), rand (k + 2 * j + 1))
       \<and> (\<forall>c\<in>set b. pos c \<noteq> (rand (k + 2 * j), rand (k + 2 * j + 1))))"
proof (rule snack_loop.raw_induct [where P = "\<lambda>rows b rand k r. 0 < rows \<longrightarrow>
   (\<exists>j. r = Snack (rand (k + 2 * j), rand (k + 2 * j + 1))
       \<and> (\<forall>c\<in>set b. pos c \<noteq> (rand (k + 2 * j), rand (k + 2 * j + 1))))", OF _ assms])
  fix loop :: "int \<Rightarrow> cube list \<Rightarrow> (nat \<Rightarrow> int) \<Rightarrow> nat \<Rightarrow> snack_result option"
  fix rows b rand k r
  assume IH: "\<And>rows b rand k r. loop rows b rand k = Some r \<Longrightarrow> 0 < rows \<longrightarrow>
   (\<exists>j. r = Snack (rand (k + 2 * j), rand (k + 2 * j + 1))
       \<and> (\<forall>c\<in>set b. pos c \<noteq> (rand (k + 2 * j), rand (k + 2 * j + 1))))"
  assume eq: "(if rows \<le> 0 then Some ValueError
      else if 0 < length (filter (\<lambda>cube. pos cube = (rand k, rand (k + 1))) b)
      then loop rows b rand (k + 2)
      else Some (Snack (rand k, rand (k + 1)))) = Some r"
  show "0 < rows \<longrightarrow>
   (\<exists>j. r = Snack (rand (k + 2 * j), rand (k + 2 * j + 1))
       \<and> (\<forall>c\<in>set b. pos c \<noteq> (rand (k + 2 * j), rand (k + 2 * j + 1))))"
  proof
    assume rows: "0 < rows"
    show "\<exists>j. r = Snack (rand (k + 2 * j), rand (k + 2 * j + 1))
       \<and> (\<forall>c\<in>set b. pos c \<noteq> (rand (k + 2 * j), rand (k + 2 * j + 1)))"
    proof (cases "\<exists>c\<in>set b. pos c = (rand k, rand (k + 1))")
      case True
      with eq rows have "loop rows b rand (k + 2) = Some r"
        by (auto simp add: filter_empty_conv)
      from IH [OF this] rows obtain j where
        j: "r = Snack (rand (k + 2 + 2 * j), rand (k + 2 + 2 * j + 1))"
           "\<forall>c\<in>set b. pos c \<noteq> (rand (k + 2 + 2 * j), rand (k + 2 + 2 * j + 1))"
        by blast
      have "k + 2 + 2 * j = k + 2 * Suc j" by simp
      with j show ?thesis by metis
    next
      case False
      with eq rows have "r = Snack (rand k, rand (k + 1))"
        by (auto simp add: filter_empty_conv)
      with False have "r = Snack (rand (k + 2 * 0), rand (k + 2 * 0 + 1))
         \<and> (\<forall>c\<in>set b. pos c \<noteq> (rand (k + 2 * 0), rand (k + 2 * 0 + 1)))"
        by simp
      then show ?thesis by blast
    qed
  qed
qed

lemma snack_loop_sound:
  "snack_loop rows b rand k = Some r \<Longrightarrow> 0 < rows \<Longrightarrow>
   \<exists>j. r = Snack (rand (k + 2 * j), rand (k + 2 * j + 1))
       \<and> (\<forall>c\<in>set b. pos c \<noteq> (rand (k + 2 * j), rand (k + 2 * j + 1)))"
  using snack_loop_sound_aux by blast

lemma snack_loop_returns:
  "0 < rows \<Longrightarrow> \<forall>c\<in>set b. pos c \<noteq> (rand (k + 2 * j), rand (k + 2 * j + 1)) \<Longrightarrow>
   \<exists>p. snack_loop rows b rand k = Some (Snack p)"
proof (induction j arbitrary: k)
  case 0
  then show ?case
    by (subst snack_loop.simps) (auto simp add: filter_empty_conv)
next
  case (Suc j)
  show ?case
  proof (cases "\<exists>c\<in>set b. pos c = (rand k, rand (k + 1))")
    case True
    have "\<forall>c\<in>set b. pos c \<noteq> (rand (k + 2 + 2 * j), rand (k + 2 + 2 * j + 1))"
      using Suc.prems(2) by (simp add: add.commute add.left_commute)
    from Suc.IH [OF Suc.prems(1) this] obtain p where
      "snack_loop rows b rand (k + 2) = Some (Snack p)" by blast
    with True Suc.prems(1) show ?thesis
      by (subst snack_loop.simps) (auto simp add: filter_empty_conv)
  next
    case False
    with Suc.prems(1) show ?thesis
      by (subst snack_loop.simps) (auto simp add: filter_empty_conv)
  qed
qed

lemma snack_loop_never:
  "0 < rows \<Longrightarrow> \<forall>j. \<exists>c\<in>set b. pos c = (rand (k + 2 * j), rand (k + 2 * j + 1)) \<Longrightarrow>
   snack_loop rows b rand k = None"
proof (rule ccontr)
  assume r: "0 < rows" and a: "\<forall>j. \<exists>c\<in>set b. pos c = (rand (k + 2 * j), rand (k + 2 * j + 1))"
    and "snack_loop rows b rand k \<noteq> None"
  then obtain r' where "snack_loop rows b rand k = Some r'" by blast
  from snack_loop_sound [OF this r] a show False by blast
qed

text \<open>
  C8. For every grid size \<open>N \<ge> 1\<close>, every snake and every sequence of draws within
  \<open>[0, N)\<close> (the contract of \<^verbatim>\<open>secrets.randbelow\<close>): whenever \<^verbatim>\<open>random_snack\<close> returns, its
  result \<open>(x, y)\<close> satisfies \<open>0 \<le> x < N\<close> and \<open>0 \<le> y < N\<close> and differs from the position of
  every segment of the body. (This needs no assumption that a cell is free: on a full
  grid the function does not return.)
\<close>

theorem random_snack_result:
  assumes "1 \<le> rows"
      and "\<forall>k. 0 \<le> rand k \<and> rand k < rows"
      and "random_snack rows s rand = Some r"
  shows "\<exists>x y. r = Snack (x, y) \<and> 0 \<le> x \<and> x < rows \<and> 0 \<le> y \<and> y < rows
           \<and> (\<forall>c\<in>set (body s). pos c \<noteq> (x, y))"
proof -
  from assms(1) have rows: "0 < rows" by simp
  from assms(3) have "snack_loop rows (body s) rand 0 = Some r"
    by (simp add: random_snack_def)
  from snack_loop_sound [OF this rows] obtain j where
    j: "r = Snack (rand (0 + 2 * j), rand (0 + 2 * j + 1))"
       "\<forall>c\<in>set (body s). pos c \<noteq> (rand (0 + 2 * j), rand (0 + 2 * j + 1))"
    by blast
  with assms(2) show ?thesis by blast
qed

theorem random_snack_result_witness:
  "(1::int) \<le> 20
   \<and> (\<forall>k. 0 \<le> (\<lambda>k::nat. if k < 2 then 5 else (3::int)) k \<and> (\<lambda>k::nat. if k < 2 then 5 else (3::int)) k < 20)
   \<and> random_snack 20 (Snake (255, 0, 0) (5, 5)) (\<lambda>k::nat. if k < 2 then 5 else (3::int)) = Some (Snack (3, 3))
   \<and> (\<exists>x y. Snack (3, 3) = Snack (x, y) \<and> 0 \<le> x \<and> x < 20 \<and> 0 \<le> y \<and> y < 20
           \<and> (\<forall>c\<in>set (body (Snake (255, 0, 0) (5, 5))). pos c \<noteq> (x, y)))"
proof -
  have a: "(1::int) \<le> 20" by simp
  have b: "\<forall>k. 0 \<le> (\<lambda>k::nat. if k < 2 then 5 else (3::int)) k
             \<and> (\<lambda>k::nat. if k < 2 then 5 else (3::int)) k < 20"
    by simp
  have c: "random_snack 20 (Snake (255, 0, 0) (5, 5)) (\<lambda>k::nat. if k < 2 then 5 else (3::int))
             = Some (Snack (3, 3))"
    unfolding random_snack_def
    apply (subst snack_loop.simps)
    apply (simp add: body_def Snake_def Cube_default_def Cube_def)
    apply (subst snack_loop.simps)
    apply (simp add: body_def Snake_def Cube_default_def Cube_def)
    done
  from random_snack_result [OF a b c] a b c show ?thesis by blast
qed

text \<open>
  C9, as stated, fails as a guarantee: the existence of a free cell does not make the
  loop draw one. On the 2-by-2 grid with the snake at (0,0), the cell (1,1) is free, yet
  for the draws 0, 0, 0, ... (each one a value \<^verbatim>\<open>randbelow(2)\<close> may return) the loop never
  ends.
\<close>

theorem random_snack_stuck_counterexample:
  "(1, 1) \<notin> set (map pos (body (Snake (255, 0, 0) (0, 0))))
   \<and> random_snack 2 (Snake (255, 0, 0) (0, 0)) (\<lambda>k. 0) = None"
proof -
  have "\<forall>j. \<exists>c\<in>set (body (Snake (255, 0, 0) (0, 0))).
          pos c = ((\<lambda>k. 0) (0 + 2 * j), (\<lambda>k. 0) (0 + 2 * j + 1))"
    by (simp add: body_def Snake_def Cube_default_def Cube_def)
  then have "snack_loop 2 (body (Snake (255, 0, 0) (0, 0))) (\<lambda>k. 0) 0 = None"
    by (intro snack_loop_never) simp_all
  then show ?thesis
    by (simp add: random_snack_def body_def Snake_def Cube_default_def Cube_def)
qed

text \<open>
  C9, amended. For \<open>N \<ge> 1\<close>, \<^verbatim>\<open>random_snack\<close> terminates exactly when the random source at
  some point draws a pair \<open>(x, y)\<close> that no segment of the snake occupies (so a free cell
  is necessary, and a uniform source draws one with probability 1, but no run is
  guaranteed to); and it never terminates when every cell of the N-by-N grid is
  occupied, the draws lying in \<open>[0, N)\<close>.
\<close>

theorem random_snack_termination:
  assumes "1 \<le> rows"
  shows "((\<exists>j. \<forall>c\<in>set (body s). pos c \<noteq> (rand (2 * j), rand (2 * j + 1)))
            \<longleftrightarrow> (\<exists>p. random_snack rows s rand = Some (Snack p)))
       \<and> ((\<forall>k. 0 \<le> rand k \<and> rand k < rows)
            \<and> (\<forall>x y. 0 \<le> x \<and> x < rows \<and> 0 \<le> y \<and> y < rows \<longrightarrow> (\<exists>c\<in>set (body s). pos c = (x, y)))
          \<longrightarrow> random_snack rows s rand = None)"
proof -
  from assms have rows: "0 < rows" by simp
  have fwd: "\<exists>p. random_snack rows s rand = Some (Snack p)"
    if "\<forall>c\<in>set (body s). pos c \<noteq> (rand (2 * j), rand (2 * j + 1))" for j
    using snack_loop_returns [OF rows, of "body s" rand 0 j] that
    by (simp add: random_snack_def)
  have bwd: "\<exists>j. \<forall>c\<in>set (body s). pos c \<noteq> (rand (2 * j), rand (2 * j + 1))"
    if "random_snack rows s rand = Some (Snack p)" for p
    using snack_loop_sound [OF _ rows, of "body s" rand 0 "Snack p"] that
    by (auto simp add: random_snack_def)
  have full: "random_snack rows s rand = None"
    if "\<forall>k. 0 \<le> rand k \<and> rand k < rows"
      and "\<forall>x y. 0 \<le> x \<and> x < rows \<and> 0 \<le> y \<and> y < rows \<longrightarrow> (\<exists>c\<in>set (body s). pos c = (x, y))"
  proof -
    from that have "\<forall>j. \<exists>c\<in>set (body s). pos c = (rand (0 + 2 * j), rand (0 + 2 * j + 1))"
      by blast
    from snack_loop_never [OF rows this] show ?thesis by (simp add: random_snack_def)
  qed
  from fwd bwd full show ?thesis by blast
qed

theorem random_snack_termination_witness:
  "(1::int) \<le> 1
   \<and> (\<forall>k. 0 \<le> (\<lambda>k::nat. 0::int) k \<and> (\<lambda>k::nat. 0::int) k < 1)
   \<and> {0..<1} \<times> {0..<1} \<subseteq> set (map pos (body (Snake (255, 0, 0) (0, 0))))
   \<and> random_snack 1 (Snake (255, 0, 0) (0, 0)) (\<lambda>k::nat. 0::int) = None
   \<and> (1::int) \<le> 20
   \<and> ((\<lambda>k::nat. if k < 2 then 5 else (3::int)) (2 * 1),
       (\<lambda>k::nat. if k < 2 then 5 else (3::int)) (2 * 1 + 1))
        \<notin> set (map pos (body (Snake (255, 0, 0) (5, 5))))
   \<and> (\<exists>p. random_snack 20 (Snake (255, 0, 0) (5, 5))
             (\<lambda>k::nat. if k < 2 then 5 else (3::int)) = Some (Snack p))"
proof -
  have a: "(1::int) \<le> 1" by simp
  have b: "\<forall>k. 0 \<le> (\<lambda>k::nat. 0::int) k \<and> (\<lambda>k::nat. 0::int) k < 1" by simp
  have c: "\<forall>x y. 0 \<le> x \<and> x < 1 \<and> 0 \<le> y \<and> y < 1 \<longrightarrow>
         (\<exists>c\<in>set (body (Snake (255, 0, 0) (0, 0))). pos c = (x, y))"
    by (auto simp add: body_def Snake_def Cube_default_def Cube_def)
  have d: "(1::int) \<le> 20" by simp
  have e: "\<forall>c\<in>set (body (Snake (255, 0, 0) (5, 5))).
         pos c \<noteq> ((\<lambda>k::nat. if k < 2 then 5 else (3::int)) (2 * 1),
                   (\<lambda>k::nat. if k < 2 then 5 else (3::int)) (2 * 1 + 1))"
    by (simp add: body_def Snake_def Cube_default_def Cube_def)
  have full: "random_snack 1 (Snake (255, 0, 0) (0, 0)) (\<lambda>k::nat. 0::int) = None"
    using random_snack_termination [OF a, of "Snake (255, 0, 0) (0, 0)" "\<lambda>k::nat. 0::int"] b c
    by blast
  have free: "\<exists>p. random_snack 20 (Snake (255, 0, 0) (5, 5))
             (\<lambda>k::nat. if k < 2 then 5 else (3::int)) = Some (Snack p)"
    using random_snack_termination [OF d, of "Snake (255, 0, 0) (5, 5)"
        "\<lambda>k::nat. if k < 2 then 5 else (3::int)"] e
    by blast
  have c': "{0..<1} \<times> {0..<1} \<subseteq> set (map pos (body (Snake (255, 0, 0) (0, 0))))"
    by (auto simp add: body_def Snake_def Cube_default_def Cube_def)
  have e': "((\<lambda>k::nat. if k < 2 then 5 else (3::int)) (2 * 1),
       (\<lambda>k::nat. if k < 2 then 5 else (3::int)) (2 * 1 + 1))
        \<notin> set (map pos (body (Snake (255, 0, 0) (5, 5))))"
    by (simp add: body_def Snake_def Cube_default_def Cube_def)
  from a b c' d e' full free show ?thesis by blast
qed

subsection \<open>Turn propagation\<close>

text \<open>
  With a single pending turn at the cell \<open>p\<close>, a cube elsewhere advances as if there were
  no turn, a cube at \<open>p\<close> takes the turn, and a cube that has the turn's direction keeps
  it whatever branch moves it.
\<close>

lemma move_cube_elsewhere:
  "T (pos c) = None \<Longrightarrow> fst (move_cube rows b c T) = advance rows c"
  by (simp add: move_cube_def advance_def Let_def)

lemma move_cube_at_turn:
  "T (pos c) = Some t \<Longrightarrow> fst (move_cube rows b c T) = Cube_move c (fst t) (snd t)"
  by (simp add: move_cube_def Let_def)

lemma move_cube_keeps_turned:
  assumes "\<And>q u. T q = Some u \<Longrightarrow> u = t" and "dirnx c = fst t" and "dirny c = snd t"
  shows "dirnx (fst (move_cube rows b c T)) = fst t \<and> dirny (fst (move_cube rows b c T)) = snd t"
proof (cases "T (pos c)")
  case None
  with assms(2,3) show ?thesis by (simp add: move_cube_def Let_def Cube_move_def)
next
  case (Some u)
  with assms(1) have "u = t" by blast
  with Some show ?thesis by (simp add: move_cube_def Let_def Cube_move_def)
qed

lemma reaches_after_steps:
  assumes T: "T p = Some t" "\<And>q. q \<noteq> p \<Longrightarrow> T q = None"
  shows "reaches_after rows p n c \<Longrightarrow> j \<le> n \<Longrightarrow>
   reaches_after rows p (n - j) (((\<lambda>c. fst (move_cube rows False c T)) ^^ j) c)"
proof (induction j)
  case 0
  then show ?case by simp
next
  case (Suc j)
  let ?x = "((\<lambda>c. fst (move_cube rows False c T)) ^^ j) c"
  from Suc have r: "reaches_after rows p (n - j) ?x" by simp
  from Suc.prems(2) obtain m where m: "n - j = Suc m" by (cases "n - j") auto
  with r have ne: "pos ?x \<noteq> p" and ra: "reaches_after rows p m (advance rows ?x)" by simp_all
  from ne have "T (pos ?x) = None" by (rule T(2))
  then have "fst (move_cube rows False ?x T) = advance rows ?x" by (rule move_cube_elsewhere)
  moreover have "n - Suc j = m" using m by simp
  ultimately show ?case using ra by simp
qed

lemma reaches_after_turned:
  assumes T: "T p = Some t" "\<And>q. q \<noteq> p \<Longrightarrow> T q = None"
  shows "reaches_after rows p n c \<Longrightarrow> n < j \<Longrightarrow>
   dirnx (((\<lambda>c. fst (move_cube rows False c T)) ^^ j) c) = fst t
   \<and> dirny (((\<lambda>c. fst (move_cube rows False c T)) ^^ j) c) = snd t"
proof (induction j)
  case 0
  then show ?case by simp
next
  case (Suc j)
  let ?x = "((\<lambda>c. fst (move_cube rows False c T)) ^^ j) c"
  have only: "\<And>q u. T q = Some u \<Longrightarrow> u = t"
    using T by (metis option.distinct(1) option.inject)
  show ?case
  proof (cases "n = j")
    case True
    have "reaches_after rows p (n - j) ?x"
      using T Suc.prems(1) True by (intro reaches_after_steps) simp_all
    with True have "pos ?x = p" by simp
    with T(1) have "T (pos ?x) = Some t" by simp
    then have "fst (move_cube rows False ?x T) = Cube_move ?x (fst t) (snd t)"
      by (rule move_cube_at_turn)
    then show ?thesis by (simp add: Cube_move_def)
  next
    case False
    with Suc.prems(2) have "n < j" by simp
    from Suc.IH [OF Suc.prems(1) this] have "dirnx ?x = fst t" "dirny ?x = snd t" by simp_all
    from move_cube_keeps_turned [OF only this] show ?thesis by simp
  qed
qed

lemma trails_nth:
  "trails rows p i cs \<Longrightarrow> j < length cs \<Longrightarrow> reaches_after rows p (i + j) (cs ! j)"
proof (induction cs arbitrary: i j)
  case Nil
  then show ?case by simp
next
  case (Cons c cs)
  show ?case
  proof (cases j)
    case 0
    with Cons.prems show ?thesis by simp
  next
    case (Suc j')
    with Cons.prems have "trails rows p (Suc i) cs" and "j' < length cs" by simp_all
    from Cons.IH [OF this] have "reaches_after rows p (Suc i + j') (cs ! j')" .
    moreover have "Suc i + j' = i + j" using Suc by simp
    ultimately show ?thesis using Suc by (simp del: reaches_after.simps)
  qed
qed

lemma move_cube_turns_kept:
  "T (pos c) = None \<Longrightarrow> snd (move_cube rows b c T) = T"
  by (simp add: move_cube_def Let_def)

lemma move_cube_turns_popped:
  "T (pos c) = Some t \<Longrightarrow> snd (move_cube rows True c T) = T(pos c := None)"
  by (simp add: move_cube_def Let_def)

lemma length_body_move: "length (body (move rows s)) = length (body s)"
  by (simp add: body_move move_loop_length)

lemma moves_follow:
  assumes T: "T p = Some t" "\<And>q. q \<noteq> p \<Longrightarrow> T q = None"
      and tr: "trails rows p 0 (body s)"
      and ts: "turns s = T"
  shows "k \<le> length (body s) \<Longrightarrow>
     length (body ((move rows ^^ k) s)) = length (body s)
     \<and> (\<forall>i<length (body s).
           body ((move rows ^^ k) s) ! i = ((\<lambda>c. fst (move_cube rows False c T)) ^^ k) (body s ! i))
     \<and> turns ((move rows ^^ k) s) = (if k < length (body s) then T else T(p := None))"
proof (induction k)
  case 0
  have "0 < length (body s)" by (simp add: body_def)
  with ts show ?case by simp
next
  case (Suc k)
  let ?L = "length (body s)"
  let ?f = "\<lambda>c. fst (move_cube rows False c T)"
  let ?sk = "(move rows ^^ k) s"
  from Suc.prems have k: "k < ?L" by simp
  with Suc.IH have len: "length (body ?sk) = ?L"
    and nth: "\<And>i. i < ?L \<Longrightarrow> body ?sk ! i = (?f ^^ k) (body s ! i)"
    and tk: "turns ?sk = T"
    by simp_all
  have step: "(move rows ^^ Suc k) s = move rows ?sk" by simp
  have len': "length (body (move rows ?sk)) = ?L"
    using len by (simp add: length_body_move)
  have nth': "body (move rows ?sk) ! i = (?f ^^ Suc k) (body s ! i)" if "i < ?L" for i
    using that len nth [OF that] tk by (simp add: body_move_nth)
  have ne: "body ?sk \<noteq> []" by (simp add: body_def)
  have "last (body ?sk) = body ?sk ! (?L - 1)"
    using len last_conv_nth [OF ne] by simp
  also have "\<dots> = (?f ^^ k) (body s ! (?L - 1))"
    using k by (intro nth) simp
  finally have last: "last (body ?sk) = (?f ^^ k) (body s ! (?L - 1))" .
  have "reaches_after rows p (0 + (?L - 1)) (body s ! (?L - 1))"
    using k by (intro trails_nth [OF tr]) simp
  then have "reaches_after rows p (?L - 1) (body s ! (?L - 1))" by simp
  then have ra: "reaches_after rows p (?L - 1 - k) (last (body ?sk))"
    unfolding last using T k by (intro reaches_after_steps) simp_all
  have turns': "turns (move rows ?sk) = (if Suc k < ?L then T else T(p := None))"
  proof (cases "Suc k < ?L")
    case True
    then obtain m where "?L - 1 - k = Suc m" by (cases "?L - 1 - k") auto
    with ra have "pos (last (body ?sk)) \<noteq> p" by simp
    then have "T (pos (last (body ?sk))) = None" by (rule T(2))
    then show ?thesis using True tk by (simp add: turns_move_last move_cube_turns_kept)
  next
    case False
    with k have "?L - 1 - k = 0" by simp
    with ra have at: "pos (last (body ?sk)) = p" by simp
    with T(1) have "T (pos (last (body ?sk))) = Some t" by simp
    then have "snd (move_cube rows True (last (body ?sk)) T) = T(pos (last (body ?sk)) := None)"
      by (rule move_cube_turns_popped)
    then show ?thesis
      using False tk at by (simp add: turns_move_last)
  qed
  show ?case unfolding step using len' nth' turns' by blast
qed

text \<open>
  C3, as stated for every snake, fails. The body with the positions (0,0), (0,1), (1,0),
  all cubes with the direction (1,0) (the body that the test
  \<^verbatim>\<open>test_snack_generation_edge_cases\<close> builds), with the single pending turn (0,1) at the
  head's cell: after 3 moves on the 20-by-20 grid the entry is still in the map and the
  second and third cube still have the direction (1,0), because they never pass through
  the head's cell.
\<close>

theorem gap_body_turn_counterexample:
  "length (body ((Snake (255, 0, 0) (0, 0))
      \<lparr>rest := [Cube_default (0, 1), Cube_default (1, 0)], turns := [(0, 0) \<mapsto> (0, 1)]\<rparr>)) = 3
   \<and> pos (head ((Snake (255, 0, 0) (0, 0))
      \<lparr>rest := [Cube_default (0, 1), Cube_default (1, 0)], turns := [(0, 0) \<mapsto> (0, 1)]\<rparr>)) = (0, 0)
   \<and> turns (move 20 (move 20 (move 20 ((Snake (255, 0, 0) (0, 0))
      \<lparr>rest := [Cube_default (0, 1), Cube_default (1, 0)], turns := [(0, 0) \<mapsto> (0, 1)]\<rparr>))))
        (0, 0) = Some (0, 1)
   \<and> map (\<lambda>c. (dirnx c, dirny c)) (body (move 20 (move 20 (move 20 ((Snake (255, 0, 0) (0, 0))
      \<lparr>rest := [Cube_default (0, 1), Cube_default (1, 0)], turns := [(0, 0) \<mapsto> (0, 1)]\<rparr>)))))
        = [(0, 1), (1, 0), (1, 0)]"
  by (simp add: move_def move_cube_def Snake_def Cube_default_def Cube_def Cube_move_def body_def
      Let_def split_beta)

text \<open>
  C3, amended. For every snake with body length L in which each segment, numbered \<open>i\<close>
  from the head, advancing on its own as \<^verbatim>\<open>Snake.move\<close> moves a segment off a pending turn,
  reaches the head's current cell after exactly \<open>i\<close> moves and not earlier (the body
  follows the head; every straight body without gaps whose head is inside the grid is
  such a body), and whose pending-turns map contains exactly one entry, recorded at the
  head's current cell: after calling \<^verbatim>\<open>Snake.move\<close> exactly L times, that entry has been
  removed from the map (it is still there after every smaller number of moves, and is
  removed on the L-th move, in which the tail sits at that cell), and every body
  segment's stored direction equals the recorded turn direction.
\<close>

theorem turn_propagates_along_body:
  assumes "trails rows (pos (head s)) 0 (body s)"
      and "turns s = [pos (head s) \<mapsto> (tx, ty)]"
  shows "turns ((move rows ^^ length (body s)) s) = Map.empty
       \<and> (\<forall>k<length (body s). turns ((move rows ^^ k) s) = [pos (head s) \<mapsto> (tx, ty)])
       \<and> pos (last (body ((move rows ^^ (length (body s) - 1)) s))) = pos (head s)
       \<and> length (body ((move rows ^^ length (body s)) s)) = length (body s)
       \<and> (\<forall>c\<in>set (body ((move rows ^^ length (body s)) s)). dirnx c = tx \<and> dirny c = ty)"
proof -
  let ?p = "pos (head s)"
  let ?T = "[?p \<mapsto> (tx, ty)]"
  let ?L = "length (body s)"
  let ?f = "\<lambda>c. fst (move_cube rows False c ?T)"
  have T1: "?T ?p = Some (tx, ty)" by simp
  have T2: "\<And>q. q \<noteq> ?p \<Longrightarrow> ?T q = None" by simp
  note inv = moves_follow [where T = ?T, OF T1 T2 assms(1) assms(2)]
  have L: "0 < ?L" by (simp add: body_def)
  have a: "turns ((move rows ^^ ?L) s) = Map.empty"
    using inv [of ?L] by simp
  have b: "\<forall>k<?L. turns ((move rows ^^ k) s) = ?T"
    using inv by simp
  have ra: "reaches_after rows ?p (0 + i) (body s ! i)" if "i < ?L" for i
    using that by (rule trails_nth [OF assms(1)])
  have c: "pos (last (body ((move rows ^^ (?L - 1)) s))) = ?p"
  proof -
    let ?s' = "(move rows ^^ (?L - 1)) s"
    have len: "length (body ?s') = ?L" using inv [of "?L - 1"] by simp
    have ne: "body ?s' \<noteq> []" by (simp add: body_def)
    have "last (body ?s') = body ?s' ! (?L - 1)"
      using len last_conv_nth [OF ne] by simp
    also have "\<dots> = (?f ^^ (?L - 1)) (body s ! (?L - 1))"
      using inv [of "?L - 1"] L by simp
    finally have eq: "last (body ?s') = (?f ^^ (?L - 1)) (body s ! (?L - 1))" .
    have "reaches_after rows ?p (?L - 1) (body s ! (?L - 1))"
      using ra [of "?L - 1"] L by simp
    then have "reaches_after rows ?p (?L - 1 - (?L - 1)) ((?f ^^ (?L - 1)) (body s ! (?L - 1)))"
      using T1 T2 by (intro reaches_after_steps) simp_all
    with eq show ?thesis by simp
  qed
  have d: "length (body ((move rows ^^ ?L) s)) = ?L"
    using inv [of ?L] by simp
  have e: "\<forall>c\<in>set (body ((move rows ^^ ?L) s)). dirnx c = tx \<and> dirny c = ty"
  proof
    fix c assume "c \<in> set (body ((move rows ^^ ?L) s))"
    then obtain i where i: "i < ?L" and c: "c = body ((move rows ^^ ?L) s) ! i"
      using d by (metis in_set_conv_nth)
    from inv [of ?L] i c have c': "c = (?f ^^ ?L) (body s ! i)" by simp
    have "reaches_after rows ?p i (body s ! i)" using ra [OF i] by simp
    then have "dirnx ((?f ^^ ?L) (body s ! i)) = fst (tx, ty)
        \<and> dirny ((?f ^^ ?L) (body s ! i)) = snd (tx, ty)"
      using T1 T2 i by (intro reaches_after_turned) simp_all
    with c' show "dirnx c = tx \<and> dirny c = ty" by simp
  qed
  from a b c d e show ?thesis by blast
qed

theorem turn_propagates_along_body_witness:
  "trails 20 (pos (head ((Snake (255, 0, 0) (10, 10))
      \<lparr>rest := [Cube_default (9, 10), Cube_default (8, 10)], turns := [(10, 10) \<mapsto> (0, - 1)]\<rparr>))) 0
     (body ((Snake (255, 0, 0) (10, 10))
      \<lparr>rest := [Cube_default (9, 10), Cube_default (8, 10)], turns := [(10, 10) \<mapsto> (0, - 1)]\<rparr>))
   \<and> length (body ((Snake (255, 0, 0) (10, 10))
      \<lparr>rest := [Cube_default (9, 10), Cube_default (8, 10)], turns := [(10, 10) \<mapsto> (0, - 1)]\<rparr>)) = 3
   \<and> turns ((move 20 ^^ 3) ((Snake (255, 0, 0) (10, 10))
      \<lparr>rest := [Cube_default (9, 10), Cube_default (8, 10)], turns := [(10, 10) \<mapsto> (0, - 1)]\<rparr>))
      = Map.empty
   \<and> list_all (\<lambda>c. dirnx c = 0 \<and> dirny c = - 1) (body ((move 20 ^^ 3) ((Snake (255, 0, 0) (10, 10))
      \<lparr>rest := [Cube_default (9, 10), Cube_default (8, 10)], turns := [(10, 10) \<mapsto> (0, - 1)]\<rparr>)))"
proof -
  let ?s = "(Snake (255, 0, 0) (10, 10))
      \<lparr>rest := [Cube_default (9, 10), Cube_default (8, 10)], turns := [(10, 10) \<mapsto> (0, - 1)]\<rparr>"
  have h1: "trails 20 (pos (head ?s)) 0 (body ?s)"
    by (simp add: body_def Snake_def Cube_default_def Cube_def advance_def move_cube_def
        Cube_move_def Let_def)
  have h2: "turns ?s = [pos (head ?s) \<mapsto> (0, - 1)]"
    by (simp add: Snake_def Cube_default_def Cube_def)
  have l: "length (body ?s) = 3" by (simp add: body_def)
  from turn_propagates_along_body [OF h1 h2] h1 l show ?thesis
    by (simp add: list_all_iff)
qed

text \<open>
  Straight bodies follow the head: on a grid that contains the head's cell, a body whose
  cubes lie one behind the other, all with the same axis-unit direction, satisfies the
  hypothesis of the amended C3.
\<close>

lemma straight_cube_reaches:
  assumes d: "(dx, dy) \<in> {(1, 0), (- 1, 0), (0, 1), (0, - 1)}"
      and grid: "0 \<le> px" "px < rows" "0 \<le> py" "py < rows"
  shows "pos c = (px - int j * dx, py - int j * dy) \<Longrightarrow> dirnx c = dx \<Longrightarrow> dirny c = dy \<Longrightarrow>
         reaches_after rows (px, py) j c"
proof (induction j arbitrary: c)
  case 0
  then show ?case by simp
next
  case (Suc j)
  from d Suc.prems(1) have ne: "pos c \<noteq> (px, py)" by auto
  from d grid Suc.prems have adv: "advance rows c = Cube_move c dx dy"
    by (auto simp add: advance_def move_cube_def Let_def)
  have "pos (Cube_move c dx dy) = (px - int j * dx, py - int j * dy)"
    using Suc.prems(1) by (simp add: Cube_move_def algebra_simps)
  moreover have "dirnx (Cube_move c dx dy) = dx" "dirny (Cube_move c dx dy) = dy"
    by (simp_all add: Cube_move_def)
  ultimately have "reaches_after rows (px, py) j (Cube_move c dx dy)"
    by (intro Suc.IH)
  with ne adv show ?case by simp
qed

lemma straight_line_trails:
  assumes d: "(dx, dy) \<in> {(1, 0), (- 1, 0), (0, 1), (0, - 1)}"
      and grid: "0 \<le> px" "px < rows" "0 \<le> py" "py < rows"
  shows "straight_line (px - int i * dx, py - int i * dy) (dx, dy) cs \<Longrightarrow>
         trails rows (px, py) i cs"
proof (induction cs arbitrary: i)
  case Nil
  then show ?case by simp
next
  case (Cons c cs)
  from Cons.prems have c: "pos c = (px - int i * dx, py - int i * dy)" "dirnx c = dx" "dirny c = dy"
    and rest: "straight_line (px - int i * dx - dx, py - int i * dy - dy) (dx, dy) cs"
    by simp_all
  have "(px - int i * dx - dx, py - int i * dy - dy)
          = (px - int (Suc i) * dx, py - int (Suc i) * dy)"
    by (simp add: algebra_simps)
  with rest have "trails rows (px, py) (Suc i) cs" by (intro Cons.IH) simp
  moreover have "reaches_after rows (px, py) i c"
    using c by (intro straight_cube_reaches [OF d grid])
  ultimately show ?case by simp
qed

lemma straight_snake_trails:
  assumes "(dx, dy) \<in> {(1, 0), (- 1, 0), (0, 1), (0, - 1)}"
      and "0 \<le> fst (pos (head s))" "fst (pos (head s)) < rows"
      and "0 \<le> snd (pos (head s))" "snd (pos (head s)) < rows"
      and "straight_line (pos (head s)) (dx, dy) (body s)"
  shows "trails rows (pos (head s)) 0 (body s)"
  using straight_line_trails [OF assms(1-5), of 0 "body s"] assms(6) by simp

end
